theory Spec2Isabelle
  imports Complex_Main "HOL-Library.Sublist"
begin

section \<open>Python strings\<close>

text \<open>
  A Python \<open>str\<close> is a sequence of code points and \<open>len\<close> counts code points. The
  model takes the texts over the code points U+0000 to U+00FF: a \<open>char\<close> is one code
  point of that range, a \<open>string\<close> is a \<open>str\<close>. The character classes below are
  Python's, cut down to this range.
\<close>

text \<open>\<open>str.isspace\<close> on one character; the class \<open>\s\<close> of \<open>re\<close> is the same set.\<close>

definition py_isspace :: "char \<Rightarrow> bool" where
  "py_isspace c =
     (let n = (of_char c :: nat)
      in (9 \<le> n \<and> n \<le> 13) \<or> (28 \<le> n \<and> n \<le> 32) \<or> n = 133 \<or> n = 160)"

text \<open>Upper-case letters: A to Z, and U+00C0 to U+00DE without the multiplication sign.\<close>

definition is_upper :: "char \<Rightarrow> bool" where
  "is_upper c =
     (let n = (of_char c :: nat)
      in (65 \<le> n \<and> n \<le> 90) \<or> (192 \<le> n \<and> n \<le> 222 \<and> n \<noteq> 215))"

text \<open>
  Lower-case letters that have their upper-case partner in the range: a to z, and U+00E0
  to U+00FE without the division sign. The partner is 32 below, so the two cases differ
  in the bit of value 32 only.
\<close>

definition is_lower_paired :: "char \<Rightarrow> bool" where
  "is_lower_paired c =
     (let n = (of_char c :: nat)
      in (97 \<le> n \<and> n \<le> 122) \<or> (224 \<le> n \<and> n \<le> 254 \<and> n \<noteq> 247))"

fun with_case_bit :: "bool \<Rightarrow> char \<Rightarrow> char" where
  "with_case_bit b (Char b0 b1 b2 b3 b4 b5 b6 b7) = Char b0 b1 b2 b3 b4 b b6 b7"

definition lower_char :: "char \<Rightarrow> char" where
  "lower_char c = (if is_upper c then with_case_bit True c else c)"

text \<open>\<open>str.lower\<close>\<close>

definition py_lower :: "string \<Rightarrow> string" where
  "py_lower s = map lower_char s"

text \<open>
  The class \<open>\w\<close> of \<open>re\<close> on a \<open>str\<close> pattern: the alphanumeric characters
  (\<open>str.isalnum\<close>) and the underscore.
\<close>

definition is_word :: "char \<Rightarrow> bool" where
  "is_word c =
     (let n = (of_char c :: nat)
      in (48 \<le> n \<and> n \<le> 57) \<or> (65 \<le> n \<and> n \<le> 90) \<or> n = 95 \<or> (97 \<le> n \<and> n \<le> 122)
         \<or> n = 170 \<or> n = 178 \<or> n = 179 \<or> n = 181 \<or> n = 185 \<or> n = 186
         \<or> (188 \<le> n \<and> n \<le> 190) \<or> (192 \<le> n \<and> n \<le> 214) \<or> (216 \<le> n \<and> n \<le> 246)
         \<or> 248 \<le> n)"

text \<open>Cased characters, which \<open>str.title\<close> takes as the inside of a word.\<close>

definition is_cased :: "char \<Rightarrow> bool" where
  "is_cased c =
     (let n = (of_char c :: nat)
      in (65 \<le> n \<and> n \<le> 90) \<or> (97 \<le> n \<and> n \<le> 122) \<or> n = 170 \<or> n = 181 \<or> n = 186
         \<or> (192 \<le> n \<and> n \<le> 214) \<or> (216 \<le> n \<and> n \<le> 246) \<or> 248 \<le> n)"

text \<open>
  The title-case form of one character. The sharp s (U+00DF) becomes \<open>Ss\<close>. The micro
  sign (U+00B5) and the y with diaeresis (U+00FF) have their title-case forms outside the
  range of the model and are left as they are.
\<close>

definition title_char :: "char \<Rightarrow> string" where
  "title_char c =
     (if c = CHR 0xDF then ''Ss''
      else if is_lower_paired c then [with_case_bit False c]
      else [c])"

text \<open>
  \<open>str.title\<close>: a character that follows a cased character is lower-cased, every other
  character is title-cased.
\<close>

fun title_from :: "bool \<Rightarrow> string \<Rightarrow> string" where
  "title_from previous_is_cased [] = []"
| "title_from previous_is_cased (c # cs) =
     (if previous_is_cased then [lower_char c] else title_char c) @ title_from (is_cased c) cs"

definition py_title :: "string \<Rightarrow> string" where
  "py_title s = title_from False s"

text \<open>The operator \<open>in\<close> on two strings: \<open>k in s\<close>.\<close>

fun str_in :: "string \<Rightarrow> string \<Rightarrow> bool" where
  "str_in k [] = (k = [])"
| "str_in k (c # cs) = (prefix k (c # cs) \<or> str_in k cs)"

text \<open>\<open>str.strip\<close> with no argument.\<close>

definition py_strip :: "string \<Rightarrow> string" where
  "py_strip s = rev (dropWhile py_isspace (rev (dropWhile py_isspace s)))"

text \<open>
  The maximal runs of characters of a class, from left to right: \<open>re.findall(r'\w+', s)\<close>
  is \<open>runs is_word s\<close>, and \<open>s.split()\<close> is the runs of the characters that are not
  whitespace.
\<close>

function runs :: "(char \<Rightarrow> bool) \<Rightarrow> string \<Rightarrow> string list" where
  "runs P [] = []"
| "runs P (c # cs) =
     (if P c then (c # takeWhile P cs) # runs P (dropWhile P cs) else runs P cs)"
  by pat_completeness auto
termination
  by (relation "measure (\<lambda>(P, s). length s)") (auto simp: length_dropWhile_le less_Suc_eq_le)

definition re_findall_words :: "string \<Rightarrow> string list" where
  "re_findall_words s = runs is_word s"

definition py_split :: "string \<Rightarrow> string list" where
  "py_split s = runs (\<lambda>c. \<not> py_isspace c) s"

text \<open>\<open>re.sub(r'\s+', ' ', s)\<close>: every maximal run of whitespace becomes one space.\<close>

function re_sub_spaces :: "string \<Rightarrow> string" where
  "re_sub_spaces [] = []"
| "re_sub_spaces (c # cs) =
     (if py_isspace c then CHR '' '' # re_sub_spaces (dropWhile py_isspace cs)
      else c # re_sub_spaces cs)"
  by pat_completeness auto
termination
  by (relation "measure length") (auto simp: length_dropWhile_le less_Suc_eq_le)

section \<open>The text chunker\<close>

text \<open>
  How a slice and \<open>str.rfind\<close> read an index of a string of length \<open>n\<close>: a negative
  index counts from the end, and the result is cut to the range from 0 to \<open>n\<close>.
\<close>

definition clamp_index :: "int \<Rightarrow> int \<Rightarrow> int" where
  "clamp_index n i = (if i < 0 then max 0 (n + i) else min i n)"

text \<open>The slice \<open>s[i:j]\<close>: empty when the upper index is not above the lower one.\<close>

definition py_slice :: "string \<Rightarrow> int \<Rightarrow> int \<Rightarrow> string" where
  "py_slice s i j =
     (let n = int (length s); a = clamp_index n i; b = clamp_index n j
      in take (nat (b - a)) (drop (nat a) s))"

text \<open>The position of the last \<open>c\<close> in a string.\<close>

fun last_index :: "char \<Rightarrow> string \<Rightarrow> nat option" where
  "last_index c [] = None"
| "last_index c (x # xs) =
     (case last_index c xs of
        Some k \<Rightarrow> Some (Suc k)
      | None \<Rightarrow> if x = c then Some 0 else None)"

text \<open>
  \<open>s.rfind(c, i, j)\<close> for a single character \<open>c\<close>: the highest index of \<open>c\<close> in
  \<open>s[i:j]\<close>, or \<open>-1\<close>. The upper index is cut to the length; a lower index beyond the
  upper one, or beyond the length, leaves nothing to search.
\<close>

definition py_rfind :: "string \<Rightarrow> char \<Rightarrow> int \<Rightarrow> int \<Rightarrow> int" where
  "py_rfind s c i j =
     (let n = int (length s);
          b = clamp_index n j;
          a = (if i < 0 then max 0 (n + i) else i)
      in case last_index c (take (nat (b - a)) (drop (nat a) s)) of
           None \<Rightarrow> - 1
         | Some k \<Rightarrow> a + int k)"

text \<open>
  The \<open>while\<close> loop of \<open>chunk_text\<close>, on the cleaned text. Nothing in the loop bounds
  the number of iterations, so a run that never leaves the loop has the value \<open>None\<close>.
  The integers are Python's: \<open>start\<close> can become negative, and the slice and \<open>rfind\<close>
  then count from the end.
\<close>

partial_function (option) chunk_loop ::
  "string \<Rightarrow> int \<Rightarrow> int \<Rightarrow> int \<Rightarrow> string list \<Rightarrow> string list option" where
  "chunk_loop text chunk_size overlap start chunks =
     (if start < int (length text) then
        (let end0 = start + chunk_size;
             end1 = (if end0 < int (length text) then
                       (let sentence_end = py_rfind text (CHR ''.'') start end0
                        in if sentence_end > start + chunk_size div 2 then sentence_end + 1
                           else end0)
                     else end0);
             chunk = py_strip (py_slice text start end1);
             chunks' = (if chunk \<noteq> [] then chunks @ [chunk] else chunks);
             start' = end1 - overlap
         in if start' \<ge> int (length text) then Some chunks'
            else chunk_loop text chunk_size overlap start' chunks')
      else Some chunks)"

declare chunk_loop.simps [code]

text \<open>\<open>PDFProcessor.chunk_text\<close>\<close>

definition chunk_text :: "string \<Rightarrow> int \<Rightarrow> int \<Rightarrow> string list option" where
  "chunk_text text chunk_size overlap =
     (if text = [] then Some []
      else chunk_loop (py_strip (re_sub_spaces text)) chunk_size overlap 0 [])"

text \<open>
  The end of the window that starts at \<open>start\<close>, as one iteration of the loop computes
  it before it cuts the chunk.
\<close>

definition window_end :: "string \<Rightarrow> int \<Rightarrow> int \<Rightarrow> int" where
  "window_end text chunk_size start =
     (let end0 = start + chunk_size
      in if end0 < int (length text) then
           (let sentence_end = py_rfind text (CHR ''.'') start end0
            in if sentence_end > start + chunk_size div 2 then sentence_end + 1 else end0)
         else end0)"

text \<open>The list of chunks after the iteration that starts at \<open>start\<close>.\<close>

definition next_chunks :: "string \<Rightarrow> int \<Rightarrow> int \<Rightarrow> string list \<Rightarrow> string list" where
  "next_chunks text chunk_size start chunks =
     (let chunk = py_strip (py_slice text start (window_end text chunk_size start))
      in if chunk \<noteq> [] then chunks @ [chunk] else chunks)"

text \<open>
  Putting the chunks together again, as the round trip of the specification has it:
  the first chunk whole, every later chunk without its first \<open>overlap\<close> characters.
\<close>

definition reassemble :: "int \<Rightarrow> string list \<Rightarrow> string" where
  "reassemble overlap chunks =
     (case chunks of [] \<Rightarrow> [] | c # cs \<Rightarrow> c @ concat (map (drop (nat overlap)) cs))"

text \<open>The window that starts at \<open>start\<close>, as the loop slices it, before it is trimmed.\<close>

definition window :: "string \<Rightarrow> int \<Rightarrow> int \<Rightarrow> string" where
  "window cleaned chunk_size start =
     py_slice cleaned start (window_end cleaned chunk_size start)"

text \<open>
  The values \<open>start\<close> has at the head of the loop, on the cleaned text: 0 at first,
  and after an iteration that does not leave the loop, the end of its window less the
  overlap.
\<close>

inductive window_start :: "string \<Rightarrow> int \<Rightarrow> int \<Rightarrow> int \<Rightarrow> bool"
  for cleaned :: string and chunk_size :: int and overlap :: int where
  first: "window_start cleaned chunk_size overlap 0"
| later: "window_start cleaned chunk_size overlap start \<Longrightarrow> start < int (length cleaned) \<Longrightarrow>
     window_end cleaned chunk_size start - overlap < int (length cleaned) \<Longrightarrow>
     window_start cleaned chunk_size overlap (window_end cleaned chunk_size start - overlap)"

section \<open>Dictionaries, exceptions and the evaluation record\<close>

text \<open>
  A value of a \<open>Dict[str, Any]\<close>: a string, or any other object, kept by what \<open>str\<close>
  gives for it.
\<close>

datatype pyval = PStr string | PObj string

fun py_str :: "pyval \<Rightarrow> string" where
  "py_str (PStr s) = s"
| "py_str (PObj s) = s"

type_synonym pydict = "(string \<times> pyval) list"

definition has_key :: "string \<Rightarrow> pydict \<Rightarrow> bool" where
  "has_key k d = (map_of d k \<noteq> None)"

text \<open>A raised \<open>Exception\<close>, with what \<open>str(e)\<close> gives.\<close>

datatype exn = Exn string

fun exn_str :: "exn \<Rightarrow> string" where
  "exn_str (Exn m) = m"

text \<open>A \<open>KeyError\<close> for a string key: \<open>str\<close> gives the key in quotes.\<close>

definition key_error :: "string \<Rightarrow> exn" where
  "key_error key = Exn (CHR 0x27 # key @ [CHR 0x27])"

text \<open>The advisory strings of the evaluator's feedback.\<close>

datatype advisory =
    AccuracyLow | RelevanceLow | CompletenessLow | ClarityLow
  | Excellent | Good | NeedsImprovement | EvaluationUnavailable

text \<open>
  The dictionary \<open>evaluate_response\<close> returns. The overall score is a Python float: the
  quotient of an integer sum by the integer 4. A quotient \<open>n / 4\<close> with a small \<open>n\<close> is
  a binary fraction that a float holds exactly, so the score is modelled as the rational
  number itself.
\<close>

record evaluation =
  accuracy :: int
  relevance :: int
  completeness :: int
  clarity :: int
  overall_score :: rat
  feedback :: "advisory list"
  eval_error :: "string option"

section \<open>The response evaluator\<close>

definition failure_words :: "string list" where
  "failure_words = [''error'', ''failed'', ''unavailable'', ''limitation'']"

text \<open>The last two indicators are the degree sign (U+00B0) with \<open>c\<close> and with \<open>f\<close>.\<close>

definition weather_indicators :: "string list" where
  "weather_indicators =
     [''temperature'', ''humidity'', ''wind'', ''pressure'',
      [CHR 0xB0, CHR ''c''], [CHR 0xB0, CHR ''f'']]"

definition evaluate_accuracy :: "string \<Rightarrow> string \<Rightarrow> string \<Rightarrow> int" where
  "evaluate_accuracy query response query_type =
     (if response = [] \<or> py_strip response = [] then 1
      else if list_ex (\<lambda>word. str_in word (py_lower response)) failure_words then 2
      else if query_type = ''weather'' then
        (if list_ex (\<lambda>indicator. str_in indicator (py_lower response)) weather_indicators
         then 4 else 3)
      else if query_type = ''rag'' then
        (if str_in ''document'' (py_lower response) \<or> str_in ''chunk'' (py_lower response)
         then 4 else 3)
      else 3)"

definition evaluate_relevance :: "string \<Rightarrow> string \<Rightarrow> string \<Rightarrow> int" where
  "evaluate_relevance query response query_type =
     (if response = [] then 1
      else
        (let query_words = set (re_findall_words (py_lower query));
             response_words = set (re_findall_words (py_lower response));
             overlap = int (card (query_words \<inter> response_words))
         in if overlap > 0 then min 5 (3 + overlap) else 3))"

definition evaluate_completeness :: "string \<Rightarrow> string \<Rightarrow> string \<Rightarrow> int" where
  "evaluate_completeness query response query_type =
     (if response = [] then 1
      else
        (let word_count = int (length (py_split response))
         in if word_count < 10 then 2
            else if word_count < 50 then 3
            else if word_count < 200 then 4
            else 5))"

text \<open>
  The list markers the code looks for are the bullet (U+2022), \<open>-\<close>, \<open>*\<close>, \<open>1.\<close> and
  \<open>2.\<close>. The bullet lies outside the code points of the model, so no response of the
  model contains it, and the list below has the other four.
\<close>

definition evaluate_clarity :: "string \<Rightarrow> int" where
  "evaluate_clarity response =
     (if response = [] then 1
      else
        (let has_headers = (str_in ''#'' response \<or> str_in ''**'' response);
             has_structure = list_ex (\<lambda>marker. str_in marker response) [''-'', ''*'', ''1.'', ''2.''];
             has_paragraphs = str_in [CHR 0x0A, CHR 0x0A] response;
             score = 3;
             score = (if has_headers then score + 1 else score);
             score = (if has_structure then score + 1 else score);
             score = (if has_paragraphs then score + 1 else score)
         in min 5 score))"

text \<open>\<open>_generate_feedback\<close>, on the dictionary with the four scores and the overall score.\<close>

definition generate_feedback :: "evaluation \<Rightarrow> advisory list" where
  "generate_feedback ev =
     (if accuracy ev < 3 then [AccuracyLow] else [])
     @ (if relevance ev < 3 then [RelevanceLow] else [])
     @ (if completeness ev < 3 then [CompletenessLow] else [])
     @ (if clarity ev < 3 then [ClarityLow] else [])
     @ (if overall_score ev \<ge> 4 then [Excellent]
        else if overall_score ev \<ge> 3 then [Good]
        else [NeedsImprovement])"

text \<open>The \<open>try\<close> block of \<open>evaluate_response\<close>. The four scorers are total on strings.\<close>

definition evaluate_scored :: "string \<Rightarrow> string \<Rightarrow> string \<Rightarrow> exn + evaluation" where
  "evaluate_scored user_query response query_type =
     (let ev = \<lparr>accuracy = evaluate_accuracy user_query response query_type,
                relevance = evaluate_relevance user_query response query_type,
                completeness = evaluate_completeness user_query response query_type,
                clarity = evaluate_clarity response,
                overall_score = 0, feedback = [], eval_error = None\<rparr>;
          scores = [accuracy ev, relevance ev, completeness ev, clarity ev];
          ev = ev\<lparr>overall_score := of_int (sum_list scores) / of_nat (length scores)\<rparr>;
          ev = ev\<lparr>feedback := generate_feedback ev\<rparr>
      in Inr ev)"

text \<open>\<open>EvaluationService.evaluate_response\<close>, with the neutral result of its handler.\<close>

definition evaluate_response :: "string \<Rightarrow> string \<Rightarrow> string \<Rightarrow> evaluation" where
  "evaluate_response user_query response query_type =
     (case evaluate_scored user_query response query_type of
        Inr ev \<Rightarrow> ev
      | Inl e \<Rightarrow>
          \<lparr>accuracy = 3, relevance = 3, completeness = 3, clarity = 3, overall_score = 3,
           feedback = [EvaluationUnavailable], eval_error = Some (exn_str e)\<rparr>)"

section \<open>The state of a pipeline run\<close>

text \<open>The \<open>evaluation\<close> entry of the state: \<open>{}\<close>, a result, or \<open>{"error": ...}\<close>.\<close>

datatype evaluation_entry = EvalEmpty | EvalResult evaluation | EvalError string

text \<open>\<open>AgentState\<close>\<close>

record agent_state =
  user_query :: string
  query_type :: string
  weather_data :: pydict
  retrieved_docs :: "pydict list"
  response :: string
  evaluation :: evaluation_entry

section \<open>Query classification\<close>

definition weather_keywords :: "string list" where
  "weather_keywords =
     [''weather'', ''temperature'', ''forecast'', ''humidity'', ''wind'',
      ''rain'', ''snow'', ''sunny'', ''cloudy'', ''hot'', ''cold'', ''degrees'',
      ''celsius'', ''fahrenheit'', ''precipitation'', ''atmosphere'', ''aqi'',
      ''air quality'', ''pollution'', ''air quality index'']"

definition classify_query :: "agent_state \<Rightarrow> agent_state" where
  "classify_query state =
     (let query = py_lower (user_query state);
          is_weather_query = list_ex (\<lambda>keyword. str_in keyword query) weather_keywords
      in if is_weather_query then state\<lparr>query_type := ''weather''\<rparr>
         else state\<lparr>query_type := ''rag''\<rparr>)"

definition route_query :: "agent_state \<Rightarrow> string" where
  "route_query state = query_type state"

text \<open>The state \<open>process_query\<close> starts the graph with.\<close>

definition initial_state :: "string \<Rightarrow> agent_state" where
  "initial_state q =
     \<lparr>user_query = q, query_type = [], weather_data = [], retrieved_docs = [],
      response = [], evaluation = EvalEmpty\<rparr>"

section \<open>City extraction\<close>

text \<open>
  The patterns of \<open>_extract_city_from_query\<close> are made of literal text and of the
  group \<open>(\w+)\<close>: a pattern is the list of its items.
\<close>

datatype re_item = Lit string | WordGroup

text \<open>The first result that is there, from left to right.\<close>

fun first_some :: "'a option list \<Rightarrow> 'a option" where
  "first_some [] = None"
| "first_some (Some x # xs) = Some x"
| "first_some (None # xs) = first_some xs"

text \<open>
  A match of a pattern at the start of a string, with the captured groups. The group
  \<open>(\w+)\<close> is greedy: it takes the longest run of word characters first, and gives
  characters back, down to one, until the rest of the pattern matches.
\<close>

fun match_here :: "re_item list \<Rightarrow> string \<Rightarrow> string list option" where
  "match_here [] s = Some []"
| "match_here (Lit l # items) s =
     (if prefix l s then match_here items (drop (length l) s) else None)"
| "match_here (WordGroup # items) s =
     first_some
       (map (\<lambda>k. case match_here items (drop k s) of
                   None \<Rightarrow> None
                 | Some groups \<Rightarrow> Some (take k s # groups))
            (rev [1 ..< Suc (length (takeWhile is_word s))]))"

text \<open>\<open>re.search\<close>: the match that starts leftmost.\<close>

definition re_search :: "re_item list \<Rightarrow> string \<Rightarrow> string list option" where
  "re_search items s =
     first_some (map (\<lambda>i. match_here items (drop i s)) [0 ..< Suc (length s)])"

text \<open>The gazetteer and the patterns of \<open>_extract_city_from_query\<close>.\<close>

definition cities :: "string list" where
  "cities =
     [''london'', ''new york'', ''tokyo'', ''paris'', ''berlin'', ''moscow'',
      ''beijing'', ''sydney'', ''toronto'', ''vancouver'', ''san francisco'',
      ''los angeles'', ''chicago'', ''miami'', ''boston'', ''seattle'', ''denver'',
      ''phoenix'', ''dallas'', ''houston'', ''atlanta'',
      ''delhi'', ''mumbai'', ''bangalore'', ''chennai'', ''kolkata'', ''hyderabad'',
      ''pune'', ''ahmedabad'', ''jaipur'', ''lucknow'', ''kanpur'', ''nagpur'',
      ''indore'', ''thane'', ''bhopal'', ''visakhapatnam'', ''patna'', ''vadodara'',
      ''ghaziabad'', ''ludhiana'']"

definition patterns :: "re_item list list" where
  "patterns =
     [[Lit ''weather in '', WordGroup],
      [Lit ''temperature in '', WordGroup],
      [Lit ''forecast for '', WordGroup],
      [WordGroup, Lit '' weather''],
      [WordGroup, Lit '' temperature'']]"

text \<open>
  The loop over the patterns: the first pattern that matches returns its first group,
  title-cased; \<open>match.group(1)\<close> raises when the match has no group.
\<close>

fun search_patterns :: "re_item list list \<Rightarrow> string \<Rightarrow> exn + string" where
  "search_patterns [] query_lower = Inr []"
| "search_patterns (pattern # rest) query_lower =
     (case re_search pattern query_lower of
        Some (group1 # groups) \<Rightarrow> Inr (py_title group1)
      | Some [] \<Rightarrow> Inl (Exn ''no such group'')
      | None \<Rightarrow> search_patterns rest query_lower)"

text \<open>\<open>AIPipeline._extract_city_from_query\<close>; the empty string when nothing is found.\<close>

definition extract_city_from_query :: "string \<Rightarrow> exn + string" where
  "extract_city_from_query query =
     (let query_lower = py_lower query
      in case find (\<lambda>city. str_in city query_lower) cities of
           Some city \<Rightarrow> Inr (py_title city)
         | None \<Rightarrow> search_patterns patterns query_lower)"

section \<open>The nodes of the graph and the query API\<close>

text \<open>
  The services a run calls: the two entry points of the weather service, the search of
  the vector store and the two entry points of the language model. Each is a function of
  its arguments that returns or raises.
\<close>

record services =
  get_weather_by_city :: "string \<Rightarrow> exn + pydict"
  get_aqi_info :: "string \<Rightarrow> exn + pydict"
  vector_search :: "string \<Rightarrow> nat \<Rightarrow> exn + pydict list"
  process_weather_query :: "pydict \<Rightarrow> string \<Rightarrow> exn + string"
  process_rag_query :: "pydict list \<Rightarrow> string \<Rightarrow> exn + string"

text \<open>\<open>WeatherService.get_indian_cities_list\<close>: the keys of \<open>indian_cities\<close>.\<close>

definition indian_cities_list :: "string list" where
  "indian_cities_list =
     [''delhi'', ''mumbai'', ''bangalore'', ''chennai'', ''kolkata'', ''hyderabad'',
      ''pune'', ''ahmedabad'', ''jaipur'', ''lucknow'', ''kanpur'', ''nagpur'',
      ''indore'', ''thane'', ''bhopal'', ''visakhapatnam'', ''patna'', ''vadodara'',
      ''ghaziabad'', ''ludhiana'']"

definition aqi_keywords :: "string list" where
  "aqi_keywords = [''aqi'', ''air quality'', ''pollution'', ''air quality index'']"

text \<open>The assignment \<open>state["weather_data"] = ...\<close> of a fetched dictionary.\<close>

definition store_weather :: "agent_state \<Rightarrow> exn + pydict \<Rightarrow> exn + agent_state" where
  "store_weather state fetched =
     (case fetched of Inl e \<Rightarrow> Inl e | Inr data \<Rightarrow> Inr (state\<lparr>weather_data := data\<rparr>))"

text \<open>The \<open>try\<close> block of \<open>_get_weather\<close>.\<close>

definition get_weather_try :: "services \<Rightarrow> agent_state \<Rightarrow> exn + agent_state" where
  "get_weather_try services state =
     (let query = py_lower (user_query state);
          is_aqi_query = list_ex (\<lambda>keyword. str_in keyword query) aqi_keywords
      in case extract_city_from_query (user_query state) of
           Inl e \<Rightarrow> Inl e
         | Inr city \<Rightarrow>
             if city \<noteq> [] then
               (if is_aqi_query then store_weather state (get_aqi_info services city)
                else store_weather state (get_weather_by_city services city))
             else
               (let default_city =
                      (if list_ex (\<lambda>indian_city. str_in indian_city query) indian_cities_list
                       then ''delhi'' else ''London'')
                in if is_aqi_query then store_weather state (get_aqi_info services default_city)
                   else store_weather state (get_weather_by_city services default_city)))"

text \<open>\<open>AIPipeline._get_weather\<close>, with its handler.\<close>

definition get_weather :: "services \<Rightarrow> agent_state \<Rightarrow> agent_state" where
  "get_weather services state =
     (case get_weather_try services state of
        Inr state' \<Rightarrow> state'
      | Inl e \<Rightarrow> state\<lparr>weather_data := [(''error'', PStr (exn_str e))]\<rparr>)"

text \<open>\<open>AIPipeline._get_rag_response\<close>, with its handler; the search asks for 3 documents.\<close>

definition get_rag_response :: "services \<Rightarrow> agent_state \<Rightarrow> agent_state" where
  "get_rag_response services state =
     (case vector_search services (user_query state) 3 of
        Inr found \<Rightarrow> state\<lparr>retrieved_docs := found\<rparr>
      | Inl e \<Rightarrow>
          state\<lparr>retrieved_docs :=
            [[(''content'', PStr (''Error retrieving documents: '' @ exn_str e))]]\<rparr>)"

text \<open>The \<open>try\<close> block of \<open>_generate_response\<close>, up to the response text.\<close>

definition generate_response_try :: "services \<Rightarrow> agent_state \<Rightarrow> exn + string" where
  "generate_response_try services state =
     (if query_type state = ''weather'' then
        (case map_of (weather_data state) ''error'' of
           Some message \<Rightarrow>
             Inr (''Sorry, I couldn't get weather information: '' @ py_str message)
         | None \<Rightarrow> process_weather_query services (weather_data state) (user_query state))
      else if query_type state = ''rag'' then
        (case retrieved_docs state of
           [] \<Rightarrow> Inr (''I don't have enough information in my knowledge base to answer ''
                      @ ''this question. Please upload a PDF document first.'')
         | first_doc # more_docs \<Rightarrow>
             if has_key ''error'' first_doc
             then Inr (''I don't have enough information in my knowledge base to answer ''
                       @ ''this question. Please upload a PDF document first.'')
             else process_rag_query services (retrieved_docs state) (user_query state))
      else Inr ''I'm not sure how to handle this type of query.'')"

text \<open>\<open>AIPipeline._generate_response\<close>, with its handler.\<close>

definition generate_response :: "services \<Rightarrow> agent_state \<Rightarrow> agent_state" where
  "generate_response services state =
     (case generate_response_try services state of
        Inr text \<Rightarrow> state\<lparr>response := text\<rparr>
      | Inl e \<Rightarrow> state\<lparr>response := ''Error generating response: '' @ exn_str e\<rparr>)"

text \<open>
  \<open>AIPipeline._evaluate_response\<close>. The evaluation service returns on every input,
  so the handler of this node, which stores \<open>EvalError\<close>, is never entered.
\<close>

definition evaluate_response_node :: "agent_state \<Rightarrow> agent_state" where
  "evaluate_response_node state =
     state\<lparr>evaluation :=
       EvalResult (evaluate_response (user_query state) (response state) (query_type state))\<rparr>"

text \<open>
  The compiled graph of \<open>_create_graph\<close>: classification, then the node the routing
  table gives for the query type, then generation and evaluation. A route that is not a
  key of the routing table is an error of the graph.
\<close>

definition graph_invoke :: "services \<Rightarrow> agent_state \<Rightarrow> exn + agent_state" where
  "graph_invoke services state =
     (let classified = classify_query state;
          route = route_query classified
      in if route = ''weather'' then
           Inr (evaluate_response_node (generate_response services (get_weather services classified)))
         else if route = ''rag'' then
           Inr (evaluate_response_node
                  (generate_response services (get_rag_response services classified)))
         else Inl (key_error route))"

text \<open>
  The two dictionaries \<open>process_query\<close> returns: \<open>query\<close>, \<open>query_type\<close>,
  \<open>response\<close>, \<open>evaluation\<close>, \<open>weather_data\<close> and \<open>retrieved_docs\<close> after a run,
  and \<open>error\<close>, \<open>query\<close> and \<open>response\<close> from the handler.
\<close>

datatype pipeline_result =
    QueryResult string string string evaluation_entry pydict "pydict list"
  | QueryFailure string string string

text \<open>
  \<open>AIPipeline.process_query\<close>, over the graph it invokes. The result type leaves room
  for an exception that reaches the caller.
\<close>

definition process_query ::
  "(agent_state \<Rightarrow> exn + agent_state) \<Rightarrow> string \<Rightarrow> exn + pipeline_result" where
  "process_query graph query =
     (case (case graph (initial_state query) of
              Inl e \<Rightarrow> Inl e
            | Inr result \<Rightarrow>
                Inr (QueryResult (user_query result) (query_type result) (response result)
                       (evaluation result) (weather_data result) (retrieved_docs result))) of
        Inr returned \<Rightarrow> Inr returned
      | Inl e \<Rightarrow>
          Inr (QueryFailure (''Pipeline error: '' @ exn_str e) query
                 ''Sorry, I encountered an error processing your request.''))"

text \<open>
  The city of a weather query in the words of the specification: the first city of the
  gazetteer that the lower-cased query contains, title-cased; otherwise the first
  capture of the first pattern that matches, title-cased; otherwise \<open>Delhi\<close> when the
  query contains an Indian city and \<open>London\<close> when it does not.
\<close>

definition city_for_weather_fetch :: "string \<Rightarrow> string" where
  "city_for_weather_fetch query =
     (case find (\<lambda>city. str_in city (py_lower query)) cities of
        Some city \<Rightarrow> py_title city
      | None \<Rightarrow>
          (case first_some (map (\<lambda>pattern. re_search pattern (py_lower query)) patterns) of
             Some groups \<Rightarrow> py_title (hd groups)
           | None \<Rightarrow>
               if list_ex (\<lambda>indian_city. str_in indian_city (py_lower query)) indian_cities_list
               then ''Delhi'' else ''London''))"

text \<open>
  What a fetch for a city leaves in \<open>weather_data\<close>: the dictionary of the air-quality
  lookup for an air-quality query and of the weather lookup otherwise, or the error of a
  lookup that raised.
\<close>

definition weather_fetch :: "services \<Rightarrow> string \<Rightarrow> string \<Rightarrow> pydict" where
  "weather_fetch services query city =
     (case (if list_ex (\<lambda>keyword. str_in keyword (py_lower query)) aqi_keywords
            then get_aqi_info services city else get_weather_by_city services city) of
        Inr data \<Rightarrow> data
      | Inl e \<Rightarrow> [(''error'', PStr (exn_str e))])"

text \<open>Services for running the model on an example.\<close>

definition echo_services :: services where
  "echo_services =
     \<lparr>get_weather_by_city = (\<lambda>city. Inr [(''city'', PStr city)]),
      get_aqi_info = (\<lambda>city. Inr [(''error'', PStr (''City '' @ city @ '' not found''))]),
      vector_search = (\<lambda>query top_k. Inl (Exn ''store unreachable'')),
      process_weather_query = (\<lambda>data query. Inr ''It is sunny.''),
      process_rag_query = (\<lambda>found query. Inl (Exn ''model unavailable''))\<rparr>"

section \<open>The vector store\<close>

text \<open>An embedding is passed on as it comes from the provider.\<close>

type_synonym vector = "rat list"

text \<open>\<open>PointStruct\<close>\<close>

record point =
  point_id :: string
  point_vector :: vector
  payload :: pydict

text \<open>
  What \<open>add_documents\<close> calls: the embedding provider, the client of the store, and
  \<open>uuid.uuid4\<close>, which gives the \<open>n\<close>-th identifier drawn.
\<close>

record store_services =
  embed_documents :: "pyval list \<Rightarrow> exn + vector list"
  client_upsert :: "point list \<Rightarrow> exn + unit"
  uuid4 :: "nat \<Rightarrow> string"

text \<open>The calls made so far: the texts sent to the provider, the points sent to the store.\<close>

record store_world =
  embed_calls :: "pyval list list"
  upsert_calls :: "point list list"
  uuids_drawn :: nat

text \<open>\<open>[doc["content"] for doc in documents]\<close>; a document without the key raises.\<close>

fun contents :: "pydict list \<Rightarrow> exn + pyval list" where
  "contents [] = Inr []"
| "contents (doc # docs) =
     (case map_of doc ''content'' of
        None \<Rightarrow> Inl (key_error ''content'')
      | Some c \<Rightarrow> (case contents docs of Inl e \<Rightarrow> Inl e | Inr cs \<Rightarrow> Inr (c # cs)))"

text \<open>The loop over \<open>zip(documents, embeddings)\<close>: one identifier drawn for each pair.\<close>

fun make_points ::
  "store_services \<Rightarrow> (pydict \<times> vector) list \<Rightarrow> point list \<Rightarrow> store_world
     \<Rightarrow> (exn + point list) \<times> store_world" where
  "make_points services [] points world = (Inr points, world)"
| "make_points services ((doc, embedding) # pairs) points world =
     (let point_id = uuid4 services (uuids_drawn world);
          world = world\<lparr>uuids_drawn := Suc (uuids_drawn world)\<rparr>
      in case map_of doc ''content'' of
           None \<Rightarrow> (Inl (key_error ''content''), world)
         | Some c \<Rightarrow>
             make_points services pairs
               (points @
                [\<lparr>point_id = point_id, point_vector = embedding,
                  payload =
                    [(''content'', c),
                     (''metadata'', case map_of doc ''metadata'' of
                                      Some m \<Rightarrow> m | None \<Rightarrow> PObj ''{}''),
                     (''source'', case map_of doc ''source'' of
                                    Some s \<Rightarrow> s | None \<Rightarrow> PStr ''unknown'')]\<rparr>])
               world)"

text \<open>The \<open>try\<close> block of \<open>add_documents\<close>.\<close>

definition add_documents_try ::
  "store_services \<Rightarrow> pydict list \<Rightarrow> store_world \<Rightarrow> (exn + string list) \<times> store_world" where
  "add_documents_try services documents world =
     (case contents documents of
        Inl e \<Rightarrow> (Inl e, world)
      | Inr texts \<Rightarrow>
          (let world = world\<lparr>embed_calls := embed_calls world @ [texts]\<rparr>
           in case embed_documents services texts of
                Inl e \<Rightarrow> (Inl e, world)
              | Inr embeddings \<Rightarrow>
                  (case make_points services (zip documents embeddings) [] world of
                     (Inl e, world) \<Rightarrow> (Inl e, world)
                   | (Inr points, world) \<Rightarrow>
                       (let world = world\<lparr>upsert_calls := upsert_calls world @ [points]\<rparr>
                        in case client_upsert services points of
                             Inl e \<Rightarrow> (Inl e, world)
                           | Inr done \<Rightarrow> (Inr (map point_id points), world)))))"

text \<open>\<open>VectorStore.add_documents\<close>: the result or the exception, and the calls made.\<close>

definition add_documents ::
  "store_services \<Rightarrow> pydict list \<Rightarrow> store_world \<Rightarrow> (exn + string list) \<times> store_world" where
  "add_documents services documents world =
     (if documents = [] then (Inr [], world)
      else
        (case add_documents_try services documents world of
           (Inr ids, world) \<Rightarrow> (Inr ids, world)
         | (Inl e, world) \<Rightarrow>
             (Inl (Exn (''Error adding documents to vector store: '' @ exn_str e)), world)))"

text \<open>A provider and a store for running the model on an example.\<close>

definition test_store :: store_services where
  "test_store =
     \<lparr>embed_documents = (\<lambda>texts. Inr (map (\<lambda>t. [of_nat (length (py_str t))]) texts)),
      client_upsert = (\<lambda>points. Inr ()),
      uuid4 = (\<lambda>n. replicate (Suc n) (CHR ''u''))\<rparr>"

section \<open>Properties of the classifier\<close>

text \<open>
  C3, as the code has it. The query type is \<open>weather\<close> exactly when the lower-cased
  query contains one of the weather keywords. Every other query gets the type \<open>rag\<close>:
  that is the label the code gives to the document branch, and no query gets the type
  \<open>document\<close>.
\<close>

theorem classify_query_weather_or_rag:
  "query_type (classify_query state) =
     (if \<exists>keyword \<in> set weather_keywords. str_in keyword (py_lower (user_query state))
      then ''weather'' else ''rag'')"
  by (simp add: classify_query_def Let_def list_ex_iff)

theorem classify_query_weather_or_rag_witness:
  "query_type (classify_query (initial_state ''Is it hot in Paris?'')) = ''weather''
   \<and> query_type (classify_query (initial_state ''Explain the AutoGen framework'')) = ''rag''"
proof -
  have hot: "\<exists>keyword \<in> set weather_keywords.
      str_in keyword (py_lower (user_query (initial_state ''Is it hot in Paris?'')))"
    by (simp add: weather_keywords_def initial_state_def py_lower_def lower_char_def
        is_upper_def)
  have none: "\<not> (\<exists>keyword \<in> set weather_keywords.
      str_in keyword (py_lower (user_query (initial_state ''Explain the AutoGen framework''))))"
    by (simp add: weather_keywords_def initial_state_def py_lower_def lower_char_def
        is_upper_def)
  show ?thesis
    using hot none
      classify_query_weather_or_rag [of "initial_state ''Is it hot in Paris?''"]
      classify_query_weather_or_rag [of "initial_state ''Explain the AutoGen framework''"]
    by presburger
qed

text \<open>
  C3, as the claim words it, fails: the query \<open>hello\<close> contains no weather keyword, and
  its query type is not \<open>document\<close>.
\<close>

theorem classify_query_document_counterexample:
  "\<not> list_ex (\<lambda>keyword. str_in keyword (py_lower ''hello'')) weather_keywords
   \<and> query_type (classify_query (initial_state ''hello'')) \<noteq> ''document''"
  by (simp add: classify_query_def weather_keywords_def initial_state_def py_lower_def
      lower_char_def is_upper_def)

section \<open>Properties of the chunker\<close>

subsection \<open>The loop, one iteration at a time\<close>

lemma chunk_loop_unfold:
  "chunk_loop text chunk_size overlap start chunks =
     (if start < int (length text) then
        (if window_end text chunk_size start - overlap \<ge> int (length text)
         then Some (next_chunks text chunk_size start chunks)
         else chunk_loop text chunk_size overlap (window_end text chunk_size start - overlap)
                (next_chunks text chunk_size start chunks))
      else Some chunks)"
  by (subst chunk_loop.simps) (simp add: window_end_def next_chunks_def Let_def)

text \<open>Induction over a run of the loop that returns.\<close>

lemma chunk_loop_run_induct [consumes 1, case_names stop last more]:
  assumes run: "chunk_loop text cs ov start chunks = Some result"
    and stop: "\<And>start chunks. \<not> start < int (length text) \<Longrightarrow> P start chunks chunks"
    and last: "\<And>start chunks. start < int (length text) \<Longrightarrow>
        int (length text) \<le> window_end text cs start - ov \<Longrightarrow>
        P start chunks (next_chunks text cs start chunks)"
    and more: "\<And>start chunks result. start < int (length text) \<Longrightarrow>
        \<not> int (length text) \<le> window_end text cs start - ov \<Longrightarrow>
        P (window_end text cs start - ov) (next_chunks text cs start chunks) result \<Longrightarrow>
        P start chunks result"
  shows "P start chunks result"
proof -
  have "t = text \<and> c = cs \<and> v = ov \<longrightarrow> P s ch r"
    if "chunk_loop t c v s ch = Some r" for t c v s ch r
    using that
  proof (induction t c v s ch r rule: chunk_loop.raw_induct [rotated, consumes 1])
    case (1 loop t c v s ch r)
    from 1(2) have body: "(if s < int (length t) then
        (if window_end t c s - v \<ge> int (length t)
         then Some (next_chunks t c s ch)
         else loop t c v (window_end t c s - v) (next_chunks t c s ch))
      else Some ch) = Some r"
      by (simp add: window_end_def next_chunks_def Let_def cong del: if_weak_cong)
    show ?case
    proof
      assume eq: "t = text \<and> c = cs \<and> v = ov"
      show "P s ch r"
      proof (cases "s < int (length t)")
        case False
        with body eq stop [of s ch] show ?thesis by simp
      next
        case True
        show ?thesis
        proof (cases "window_end t c s - v \<ge> int (length t)")
          case True
          with body eq \<open>s < int (length t)\<close> last [of s ch] show ?thesis by simp
        next
          case False
          with body True
          have "loop t c v (window_end t c s - v) (next_chunks t c s ch) = Some r"
            by simp
          from 1(1) [OF this] eq
          have "P (window_end t c s - v) (next_chunks t c s ch) r" by simp
          with more [of s ch r] True False eq show ?thesis by simp
        qed
      qed
    qed
  qed
  with run show ?thesis by blast
qed

text \<open>The window ends at \<open>start + chunk_size\<close>, or just after a period \<open>rfind\<close> found.\<close>

lemma window_end_cases:
  "window_end text cs start = start + cs \<or>
   (start + cs < int (length text)
    \<and> window_end text cs start = py_rfind text (CHR ''.'') start (start + cs) + 1
    \<and> py_rfind text (CHR ''.'') start (start + cs) > start + cs div 2)"
  by (simp add: window_end_def Let_def)

subsection \<open>When the loop returns\<close>

text \<open>
  An overlap below the chunk size and at most \<open>chunk_size div 2 + 1\<close> makes every
  iteration move the start forward, also after a cut at a period.
\<close>

lemma window_end_progress:
  assumes "overlap < cs" "overlap \<le> cs div 2 + 1"
  shows "start < window_end text cs start - overlap"
  using window_end_cases [of "text" cs start] assms by linarith

lemma chunk_loop_terminates:
  assumes "overlap < cs" "overlap \<le> cs div 2 + 1"
  shows "\<exists>result. chunk_loop text cs overlap start chunks = Some result"
proof (induction "nat (int (length text) - start)" arbitrary: start chunks rule: less_induct)
  case less
  show ?case
  proof (cases "start < int (length text)")
    case False
    then show ?thesis by (subst chunk_loop_unfold) simp
  next
    case True
    let ?e = "window_end text cs start"
    have prog: "start < ?e - overlap" using window_end_progress [OF assms] .
    show ?thesis
    proof (cases "?e - overlap \<ge> int (length text)")
      case True
      with \<open>start < int (length text)\<close> show ?thesis
        by (subst chunk_loop_unfold) simp
    next
      case False
      have "nat (int (length text) - (?e - overlap)) < nat (int (length text) - start)"
        using prog True by linarith
      from less [OF this] False True show ?thesis
        by (subst chunk_loop_unfold) simp
    qed
  qed
qed

lemma chunk_text_terminates:
  assumes "overlap < cs" "overlap \<le> cs div 2 + 1"
  shows "\<exists>chunks. chunk_text text cs overlap = Some chunks"
  using chunk_loop_terminates [OF assms] by (simp add: chunk_text_def)

text \<open>
  With a chunk size of 5 and an overlap of 4 the text \<open>abc.efgh\<close> has its first window
  cut after the period, at 4, and the next window starts at 0 again.
\<close>

lemma chunk_loop_stuck_aux:
  "chunk_loop text chunk_size overlap start chunks = Some result \<Longrightarrow>
   \<not> (text = ''abc.efgh'' \<and> chunk_size = 5 \<and> overlap = 4 \<and> start = 0)"
proof (induction rule: chunk_loop_run_induct)
  case (stop start chunks)
  then show ?case by auto
next
  case (last start chunks)
  have "window_end ''abc.efgh'' 5 0 = 4" by code_simp
  with last show ?case by auto
next
  case (more start chunks result)
  have "window_end ''abc.efgh'' 5 0 = 4" by code_simp
  with more show ?case by auto
qed

text \<open>
  C1, at the failing input: \<open>chunk_text("abc.efgh", 5, 4)\<close> has an overlap below the
  chunk size and never returns.
\<close>

theorem chunk_text_overlap_4_of_5_never_returns:
  "chunk_text ''abc.efgh'' 5 4 = None"
proof -
  have n: "py_strip (re_sub_spaces ''abc.efgh'') = ''abc.efgh''" by code_simp
  have "chunk_loop ''abc.efgh'' 5 4 0 [] = None"
    using chunk_loop_stuck_aux [of "''abc.efgh''" 5 4 0 "[]"]
    by (cases "chunk_loop ''abc.efgh'' 5 4 0 []") auto
  then show ?thesis unfolding chunk_text_def n by simp
qed

subsection \<open>Short texts\<close>

lemma chunk_text_empty: "chunk_text [] chunk_size overlap = Some []"
  by (simp add: chunk_text_def)

lemma py_strip_rev: "dropWhile py_isspace (rev (py_strip s)) = rev (py_strip s)"
  by (simp add: py_strip_def)

lemma py_strip_as_take:
  "py_strip s = take (length (py_strip s)) (dropWhile py_isspace s)"
proof -
  have "rev (dropWhile P (rev xs)) = take (length (dropWhile P (rev xs))) xs" for P and xs :: string
  proof -
    have "rev xs = takeWhile P (rev xs) @ dropWhile P (rev xs)" by simp
    then have "xs = rev (dropWhile P (rev xs)) @ rev (takeWhile P (rev xs))"
      by (metis rev_append rev_rev_ident)
    then show ?thesis by (metis append_eq_conv_conj length_rev)
  qed
  from this [of py_isspace "dropWhile py_isspace s"] show ?thesis
    unfolding py_strip_def length_rev by simp
qed

lemma py_strip_head: "dropWhile py_isspace (py_strip s) = py_strip s"
proof (cases "py_strip s")
  case Nil
  then show ?thesis by simp
next
  case (Cons c cs)
  with py_strip_as_take [of s] have "dropWhile py_isspace s \<noteq> []"
    by (metis list.distinct(1) take.simps(1))
  then have "\<not> py_isspace (hd (dropWhile py_isspace s))" by (rule hd_dropWhile)
  moreover from Cons py_strip_as_take [of s] have "hd (py_strip s) = hd (dropWhile py_isspace s)"
    by (metis hd_take length_greater_0_conv list.distinct(1))
  ultimately show ?thesis using Cons by simp
qed

lemma py_strip_idem: "py_strip (py_strip s) = py_strip s"
  using py_strip_rev [of s] py_strip_head [of s] by (simp add: py_strip_def)

text \<open>
  A text that, once cleaned, is not empty and fits both the chunk size and the chunk
  size less the overlap gives one chunk, the cleaned text.
\<close>

lemma chunk_text_single_chunk:
  assumes "py_strip (re_sub_spaces text) \<noteq> []"
    and "int (length (py_strip (re_sub_spaces text))) \<le> chunk_size"
    and "int (length (py_strip (re_sub_spaces text))) \<le> chunk_size - overlap"
  shows "chunk_text text chunk_size overlap = Some [py_strip (re_sub_spaces text)]"
proof -
  let ?t = "py_strip (re_sub_spaces text)"
  from assms(1) have ne: "text \<noteq> []" by (auto simp: py_strip_def)
  have e: "window_end ?t chunk_size 0 = chunk_size"
    using assms(2) by (simp add: window_end_def)
  have "py_slice ?t 0 chunk_size = ?t"
    using assms(2) by (simp add: py_slice_def clamp_index_def)
  then have "next_chunks ?t chunk_size 0 [] = [?t]"
    using assms(1) by (simp add: next_chunks_def e py_strip_idem)
  then have "chunk_loop ?t chunk_size overlap 0 [] = Some [?t]"
    using assms by (subst chunk_loop_unfold) (simp add: e)
  with ne show ?thesis by (simp add: chunk_text_def)
qed

text \<open>
  C2, at the failing input: \<open>chunk_text("abcd", 4, 2)\<close>. The text is as long as the
  chunk size, the first window is the whole text, and the loop goes on to cut a second
  chunk out of the overlap. One chunk needs the text to fit \<open>chunk_size - overlap\<close>
  as well (\<open>chunk_text_single_chunk\<close>).
\<close>

theorem chunk_text_short_text_two_chunks:
  "chunk_text ''abcd'' 4 2 = Some [''abcd'', ''cd'']"
  by code_simp

subsection \<open>The length of a chunk\<close>

lemma last_index_less: "last_index c xs = Some k \<Longrightarrow> k < length xs"
  by (induction xs arbitrary: k) (auto split: option.splits if_splits)

lemma py_rfind_range:
  "py_rfind s c i j = - 1 \<or>
   ((if i < 0 then max 0 (int (length s) + i) else i) \<le> py_rfind s c i j
    \<and> py_rfind s c i j < clamp_index (int (length s)) j)"
proof (cases "last_index c
    (take (nat (clamp_index (int (length s)) j - (if i < 0 then max 0 (int (length s) + i) else i)))
      (drop (nat (if i < 0 then max 0 (int (length s) + i) else i)) s))")
  case None
  then show ?thesis by (simp add: py_rfind_def Let_def)
next
  case (Some k)
  from last_index_less [OF Some] Some show ?thesis
    by (auto simp add: py_rfind_def Let_def)
qed

lemma length_py_strip: "length (py_strip s) \<le> length s"
  using length_dropWhile_le [of py_isspace "rev (dropWhile py_isspace s)"]
    length_dropWhile_le [of py_isspace s]
  by (simp add: py_strip_def)

lemma length_py_slice:
  "int (length (py_slice s i j))
     \<le> max 0 (clamp_index (int (length s)) j - clamp_index (int (length s)) i)"
  by (simp add: py_slice_def Let_def)

lemma clamp_window:
  "0 \<le> cs \<Longrightarrow> 0 \<le> n \<Longrightarrow> clamp_index n (start + cs) - clamp_index n start \<le> cs"
  by (auto simp: clamp_index_def min_def max_def)

lemma window_length:
  assumes "0 \<le> cs" "start < int (length text)"
  shows "int (length (py_slice text start (window_end text cs start))) \<le> cs"
proof -
  let ?n = "int (length text)"
  let ?r = "py_rfind text (CHR ''.'') start (start + cs)"
  have cw: "clamp_index ?n (start + cs) - clamp_index ?n start \<le> cs"
    using assms(1) by (rule clamp_window) simp
  consider (whole) "window_end text cs start = start + cs"
    | (cut) "window_end text cs start = ?r + 1"
    using window_end_cases [of "text" cs start] by blast
  then show ?thesis
  proof cases
    case whole
    with length_py_slice [of "text" start "start + cs"] cw assms(1) show ?thesis by simp
  next
    case cut
    from py_rfind_range [of "text" "CHR ''.''" start "start + cs"]
    have "clamp_index ?n (?r + 1) \<le> max (clamp_index ?n start) (clamp_index ?n (start + cs))"
      using assms(2) by (auto simp: clamp_index_def split: if_splits)
    with length_py_slice [of "text" start "?r + 1"] cw assms(1) cut show ?thesis by simp
  qed
qed

lemma next_chunks_bounded:
  assumes "0 \<le> cs" "start < int (length text)" "\<forall>c \<in> set chunks. int (length c) \<le> cs"
  shows "\<forall>c \<in> set (next_chunks text cs start chunks). int (length c) \<le> cs"
proof -
  have "int (length (py_strip (py_slice text start (window_end text cs start)))) \<le> cs"
    using window_length [OF assms(1,2)]
      length_py_strip [of "py_slice text start (window_end text cs start)"]
    by linarith
  with assms(3) show ?thesis by (simp add: next_chunks_def Let_def)
qed

lemma chunk_loop_bounded:
  assumes "chunk_loop text cs ov start chunks = Some result" and "0 \<le> cs"
  shows "(\<forall>c \<in> set chunks. int (length c) \<le> cs) \<longrightarrow> (\<forall>c \<in> set result. int (length c) \<le> cs)"
  using assms(1)
proof (induction rule: chunk_loop_run_induct)
  case (stop start chunks)
  show ?case by simp
next
  case (last start chunks)
  then show ?case using next_chunks_bounded [OF assms(2)] by blast
next
  case (more start chunks result)
  then show ?case using next_chunks_bounded [OF assms(2)] by blast
qed

text \<open>
  C8. For a chunk size that is not negative, and for every overlap, every chunk that
  \<open>chunk_text\<close> returns has at most \<open>chunk_size\<close> characters.
\<close>

theorem chunk_text_chunks_within_chunk_size:
  assumes "chunk_text text chunk_size overlap = Some chunks" and "0 \<le> chunk_size"
  shows "\<forall>c \<in> set chunks. int (length c) \<le> chunk_size"
proof (cases "text = []")
  case True
  with assms(1) show ?thesis by (simp add: chunk_text_def)
next
  case False
  with assms(1)
  have "chunk_loop (py_strip (re_sub_spaces text)) chunk_size overlap 0 [] = Some chunks"
    by (simp add: chunk_text_def)
  from chunk_loop_bounded [OF this assms(2)] show ?thesis by simp
qed

theorem chunk_text_chunks_within_chunk_size_witness:
  "chunk_text ''  Hello world. This is   a test. More text here.  '' 20 5
     = Some [''Hello world.'', ''orld. This is a test'', ''test. More text her'', ''t here.'']
   \<and> list_all (\<lambda>c. int (length c) \<le> 20)
        [''Hello world.'', ''orld. This is a test'', ''test. More text her'', ''t here.'']"
proof -
  have run: "chunk_text ''  Hello world. This is   a test. More text here.  '' 20 5
     = Some [''Hello world.'', ''orld. This is a test'', ''test. More text her'', ''t here.'']"
    by code_simp
  have size: "(0::int) \<le> 20" by simp
  from chunk_text_chunks_within_chunk_size [OF run size] run show ?thesis
    unfolding list_all_iff by blast
qed

subsection \<open>The round trip\<close>

lemma dropWhile_none: "\<forall>c \<in> set s. \<not> P c \<Longrightarrow> dropWhile P s = s"
  by (cases s) auto

lemma py_strip_no_space: "\<forall>c \<in> set s. \<not> py_isspace c \<Longrightarrow> py_strip s = s"
  by (simp add: py_strip_def dropWhile_none)

lemma re_sub_spaces_no_space: "\<forall>c \<in> set s. \<not> py_isspace c \<Longrightarrow> re_sub_spaces s = s"
  by (induction s) auto

lemma py_slice_nonneg:
  assumes "0 \<le> i" "i \<le> int (length s)" "0 \<le> j"
  shows "py_slice s i j = take (nat j - nat i) (drop (nat i) s)"
proof (cases "j \<le> int (length s)")
  case True
  with assms show ?thesis
    by (simp add: py_slice_def clamp_index_def Let_def min_def nat_diff_distrib')
next
  case False
  with assms have "length (drop (nat i) s) \<le> nat j - nat i"
    and "length (drop (nat i) s) \<le> nat (int (length s) - i)"
    by simp_all
  with False assms show ?thesis
    by (simp add: py_slice_def clamp_index_def Let_def min_def)
qed

lemma reassemble_snoc:
  "chunks \<noteq> [] \<Longrightarrow> reassemble ov (chunks @ [w]) = reassemble ov chunks @ drop (nat ov) w"
  by (cases chunks) (simp_all add: reassemble_def)

lemma take_glue:
  fixes a b k s :: nat
  assumes "a \<le> k" "a = s + b"
  shows "take a t @ drop b (take (k - s) (drop s t)) = take k t"
proof -
  have "drop b (take (k - s) (drop s t)) = take (k - a) (drop a t)"
    using assms(2) by (simp add: drop_take add.commute)
  moreover have "take a t @ take (k - a) (drop a t) = take k t"
    using assms(1) by (metis le_add_diff_inverse take_add)
  ultimately show ?thesis by simp
qed

lemma chunk_loop_roundtrip:
  assumes ov: "0 \<le> ov" "ov < cs" "ov \<le> cs div 2 + 1"
    and whole: "\<And>start. window_start t cs ov start \<Longrightarrow> start < int (length t) \<Longrightarrow>
        py_strip (py_slice t start (window_end t cs start))
          = py_slice t start (window_end t cs start)"
  shows "0 \<le> start \<Longrightarrow>
     (chunks = [] \<and> start = 0) \<or> (chunks \<noteq> [] \<and> reassemble ov chunks = take (nat (start + ov)) t) \<Longrightarrow>
     window_start t cs ov start \<Longrightarrow>
     \<exists>r. chunk_loop t cs ov start chunks = Some r \<and> reassemble ov r = t"
proof (induction "nat (int (length t) - start)" arbitrary: start chunks rule: less_induct)
  case less
  show ?case
  proof (cases "start < int (length t)")
    case False
    have "reassemble ov chunks = t"
      using less.prems False ov(1) by (auto simp: reassemble_def)
    with False show ?thesis by (subst chunk_loop_unfold) simp
  next
    case True
    let ?e = "window_end t cs start"
    let ?w = "py_slice t start ?e"
    have prog: "start < ?e - ov" using window_end_progress [OF ov(2,3)] .
    have w: "?w = take (nat ?e - nat start) (drop (nat start) t)"
      using py_slice_nonneg [of start t ?e] less.prems(1) True prog ov(1) by simp
    have strip: "py_strip ?w = ?w" using less.prems(3) True by (rule whole)
    have "nat start < nat ?e" "nat start < length t"
      using True prog ov(1) less.prems(1) by linarith+
    then have "0 < nat ?e - nat start" "nat start < length t" by linarith+
    then have "?w \<noteq> []" unfolding w by (simp del: zero_less_diff)
    with strip have nc: "next_chunks t cs start chunks = chunks @ [?w]"
      by (simp add: next_chunks_def Let_def)
    have re: "reassemble ov (chunks @ [?w]) = take (nat ?e) t"
    proof (cases "chunks = []")
      case True
      with less.prems(2) have "start = 0" by simp
      then show ?thesis using True w by (simp add: reassemble_def)
    next
      case False
      with less.prems(2) have inv: "reassemble ov chunks = take (nat (start + ov)) t" by simp
      have "take (nat (start + ov)) t @ drop (nat ov) (take (nat ?e - nat start) (drop (nat start) t))
            = take (nat ?e) t"
        using prog ov(1) less.prems(1)
        by (intro take_glue) (simp_all add: nat_add_distrib)
      with False inv w show ?thesis by (simp add: reassemble_snoc)
    qed
    show ?thesis
    proof (cases "?e - ov \<ge> int (length t)")
      case True
      with ov(1) have "take (nat ?e) t = t" by simp
      with re nc True \<open>start < int (length t)\<close> show ?thesis
        by (subst chunk_loop_unfold) simp
    next
      case False
      have m: "nat (int (length t) - (?e - ov)) < nat (int (length t) - start)"
        using prog True by linarith
      have inv': "(chunks @ [?w] = [] \<and> ?e - ov = 0) \<or>
          (chunks @ [?w] \<noteq> [] \<and> reassemble ov (chunks @ [?w]) = take (nat (?e - ov + ov)) t)"
        using re by simp
      have "0 \<le> ?e - ov" using prog less.prems(1) by simp
      moreover have "window_start t cs ov (?e - ov)"
        using less.prems(3) True False by (intro window_start.later) simp_all
      ultimately show ?thesis
        using less.hyps [OF m _ inv'] nc False True
        by (subst chunk_loop_unfold) simp
    qed
  qed
qed


text \<open>
  C4, as the claim words it, fails: \<open>chunk_text("ab cd", 3, 0)\<close> trims the space off
  the first window, and the chunks put together give \<open>abcd\<close>.
\<close>

theorem chunk_text_round_trip_counterexample:
  "chunk_text ''ab cd'' 3 0 = Some [''ab'', ''cd'']
   \<and> reassemble 0 [''ab'', ''cd''] \<noteq> py_strip (re_sub_spaces ''ab cd'')"
  by code_simp

text \<open>
  C4, as the code has it. Take any text, and an overlap that is not negative, below the
  chunk size and at most \<open>chunk_size div 2 + 1\<close>. If no window that the loop slices
  out of the cleaned text begins or ends with whitespace, so that trimming takes
  nothing off it, then \<open>chunk_text\<close> returns, and its chunks put together, every chunk
  after the first without its first \<open>overlap\<close> characters, are the cleaned text.
\<close>

theorem chunk_text_round_trip_untrimmed_windows:
  assumes "0 \<le> overlap" "overlap < chunk_size" "overlap \<le> chunk_size div 2 + 1"
    and whole: "\<And>start.
        window_start (py_strip (re_sub_spaces text)) chunk_size overlap start \<Longrightarrow>
        start < int (length (py_strip (re_sub_spaces text))) \<Longrightarrow>
        py_strip (window (py_strip (re_sub_spaces text)) chunk_size start)
          = window (py_strip (re_sub_spaces text)) chunk_size start"
  shows "\<exists>chunks. chunk_text text chunk_size overlap = Some chunks
           \<and> reassemble overlap chunks = py_strip (re_sub_spaces text)"
proof (cases "text = []")
  case True
  then show ?thesis by (simp add: chunk_text_def reassemble_def py_strip_def)
next
  case False
  from chunk_loop_roundtrip [OF assms(1-3) whole [unfolded window_def], of 0 "[]"]
    window_start.first False
  show ?thesis by (simp add: chunk_text_def)
qed

theorem chunk_text_round_trip_untrimmed_windows_witness:
  "(0::int) \<le> 2 \<and> (2::int) < 8 \<and> (2::int) \<le> 8 div 2 + 1
   \<and> py_strip (re_sub_spaces (''  abcde.  fg'' @ [CHR 0x0A] @ ''hijk '')) = ''abcde. fg hijk''
   \<and> list_all
        (\<lambda>start. py_strip (window ''abcde. fg hijk'' 8 start) = window ''abcde. fg hijk'' 8 start)
        [0, 4, 10]
   \<and> chunk_text (''  abcde.  fg'' @ [CHR 0x0A] @ ''hijk '') 8 2
       = Some [''abcde.'', ''e. fg hi'', ''hijk'']
   \<and> reassemble 2 [''abcde.'', ''e. fg hi'', ''hijk''] = ''abcde. fg hijk''"
proof -
  let ?raw = "''  abcde.  fg'' @ [CHR 0x0A] @ ''hijk ''"
  let ?t = "''abcde. fg hijk''"
  have h1: "(0::int) \<le> 2" and h2: "(2::int) < 8" and h3: "(2::int) \<le> 8 div 2 + 1"
    by simp_all
  have t: "py_strip (re_sub_spaces ?raw) = ?t" by code_simp
  have ends: "window_end ?t 8 0 = 6" "window_end ?t 8 4 = 12" "window_end ?t 8 10 = 18"
    by code_simp+
  have starts: "start = 0 \<or> start = 4 \<or> start = 10" if "window_start ?t 8 2 start" for start
    using that
  proof (induction rule: window_start.induct)
    case first
    then show ?case by simp
  next
    case (later start)
    then show ?case using ends by auto
  qed
  have windows: "py_strip (window ?t 8 0) = window ?t 8 0"
    "py_strip (window ?t 8 4) = window ?t 8 4"
    "py_strip (window ?t 8 10) = window ?t 8 10"
    by code_simp+
  have whole: "py_strip (window ?t 8 start) = window ?t 8 start"
    if "window_start ?t 8 2 start" for start
    using starts [OF that] windows by auto
  have run: "chunk_text ?raw 8 2 = Some [''abcde.'', ''e. fg hi'', ''hijk'']" by code_simp
  from chunk_text_round_trip_untrimmed_windows [of 2 8 ?raw, unfolded t, OF h1 h2 h3 whole] run
  have "reassemble 2 [''abcde.'', ''e. fg hi'', ''hijk''] = ?t" by simp
  with h1 h2 h3 t windows run show ?thesis by simp
qed

text \<open>A text without whitespace has no window that trimming shortens.\<close>

lemma chunk_text_round_trip_no_whitespace:
  assumes "\<forall>c \<in> set text. \<not> py_isspace c"
    and "0 \<le> overlap" "overlap < chunk_size" "overlap \<le> chunk_size div 2 + 1"
  shows "\<exists>chunks. chunk_text text chunk_size overlap = Some chunks
           \<and> reassemble overlap chunks = text"
proof (cases "text = []")
  case True
  then show ?thesis by (simp add: chunk_text_def reassemble_def)
next
  case False
  have n: "py_strip (re_sub_spaces text) = text"
    using assms(1) by (simp add: re_sub_spaces_no_space py_strip_no_space)
  have "py_strip (py_slice text start e) = py_slice text start e" for start e
  proof -
    have "set (py_slice text start e) \<subseteq> set text"
      unfolding py_slice_def Let_def by (meson set_drop_subset set_take_subset subset_trans)
    with assms(1) show ?thesis by (intro py_strip_no_space) blast
  qed
  from chunk_loop_roundtrip [OF assms(2-4) this, of 0 "[]"] window_start.first False
  show ?thesis by (simp add: chunk_text_def n)
qed

section \<open>Properties of the evaluator\<close>

lemma evaluate_accuracy_range: "1 \<le> evaluate_accuracy q r t \<and> evaluate_accuracy q r t \<le> 5"
  by (simp add: evaluate_accuracy_def)
lemma evaluate_relevance_range: "1 \<le> evaluate_relevance q r t \<and> evaluate_relevance q r t \<le> 5"
  by (simp add: evaluate_relevance_def Let_def)
lemma evaluate_completeness_range: "1 \<le> evaluate_completeness q r t \<and> evaluate_completeness q r t \<le> 5"
  by (simp add: evaluate_completeness_def Let_def)
lemma evaluate_clarity_range: "1 \<le> evaluate_clarity r \<and> evaluate_clarity r \<le> 5"
  by (simp add: evaluate_clarity_def Let_def)

lemma evaluate_response_fields:
  "accuracy (evaluate_response q r t) = evaluate_accuracy q r t"
  "relevance (evaluate_response q r t) = evaluate_relevance q r t"
  "completeness (evaluate_response q r t) = evaluate_completeness q r t"
  "clarity (evaluate_response q r t) = evaluate_clarity r"
  "overall_score (evaluate_response q r t) =
     of_int (evaluate_accuracy q r t + evaluate_relevance q r t
             + evaluate_completeness q r t + evaluate_clarity r) / 4"
  by (simp_all add: evaluate_response_def evaluate_scored_def Let_def)

text \<open>
  C6. For every query, response and query type, the four scores that
  \<open>evaluate_response\<close> returns are integers from 1 to 5, and the overall score is
  their sum divided by 4, not rounded.
\<close>

theorem evaluate_response_scores_and_mean:
  fixes user_query response query_type :: string
  shows
  "(let ev = evaluate_response user_query response query_type
    in 1 \<le> accuracy ev \<and> accuracy ev \<le> 5
       \<and> 1 \<le> relevance ev \<and> relevance ev \<le> 5
       \<and> 1 \<le> completeness ev \<and> completeness ev \<le> 5
       \<and> 1 \<le> clarity ev \<and> clarity ev \<le> 5
       \<and> overall_score ev
           = of_int (accuracy ev + relevance ev + completeness ev + clarity ev) / 4)"
  unfolding Let_def evaluate_response_fields
  using evaluate_accuracy_range [of user_query response query_type]
    evaluate_relevance_range [of user_query response query_type]
    evaluate_completeness_range [of user_query response query_type]
    evaluate_clarity_range [of response]
  by simp

theorem evaluate_response_scores_and_mean_witness:
  "evaluate_response ''What is the weather in Paris?''
     ''The weather in Paris: temperature 20'' ''weather''
   = \<lparr>accuracy = 4, relevance = 5, completeness = 2, clarity = 3, overall_score = 7 / 2,
      feedback = [CompletenessLow, Good], eval_error = None\<rparr>
   \<and> (7 / 2 :: rat) = of_int (4 + 5 + 2 + 3) / 4"
proof -
  have run: "evaluate_response ''What is the weather in Paris?''
     ''The weather in Paris: temperature 20'' ''weather''
   = \<lparr>accuracy = 4, relevance = 5, completeness = 2, clarity = 3, overall_score = 7 / 2,
      feedback = [CompletenessLow, Good], eval_error = None\<rparr>"
    by code_simp
  from evaluate_response_scores_and_mean [of "''What is the weather in Paris?''"
      "''The weather in Paris: temperature 20''" "''weather''"] run
  show ?thesis by simp
qed

lemma runs_none: "\<forall>c \<in> set s. \<not> P c \<Longrightarrow> runs P s = []"
  by (induction s) auto

lemma dropWhile_all: "\<forall>c \<in> set s. P c \<Longrightarrow> dropWhile P s = []"
  by (induction s) auto

lemma space_not_word: "py_isspace c \<Longrightarrow> \<not> is_word (lower_char c)"
  by (auto simp: py_isspace_def lower_char_def is_upper_def is_word_def Let_def)

text \<open>
  C9. A response that is not empty and has whitespace only gets the accuracy 1 of an
  empty response, and the relevance 3 and the completeness 2 of a response that is not
  empty, whatever the query and the query type.
\<close>

theorem evaluate_response_whitespace_only:
  fixes user_query response query_type :: string
  assumes "response \<noteq> []" and "\<forall>c \<in> set response. py_isspace c"
  shows "accuracy (evaluate_response user_query response query_type) = 1
    \<and> relevance (evaluate_response user_query response query_type) = 3
    \<and> completeness (evaluate_response user_query response query_type) = 2"
proof -
  have "py_strip response = []"
    using assms(2) by (simp add: py_strip_def dropWhile_all)
  then have a: "evaluate_accuracy user_query response query_type = 1"
    by (simp add: evaluate_accuracy_def)
  have "re_findall_words (py_lower response) = []"
    unfolding re_findall_words_def py_lower_def
    using assms(2) by (intro runs_none) (auto simp: space_not_word)
  then have r: "evaluate_relevance user_query response query_type = 3"
    using assms(1) by (simp add: evaluate_relevance_def)
  have "py_split response = []"
    unfolding py_split_def using assms(2) by (intro runs_none) simp
  then have c: "evaluate_completeness user_query response query_type = 2"
    using assms(1) by (simp add: evaluate_completeness_def)
  from a r c show ?thesis by (simp add: evaluate_response_fields)
qed

theorem evaluate_response_whitespace_only_witness:
  "[CHR 0x20, CHR 0x0A, CHR 0x09] \<noteq> []
   \<and> list_all py_isspace [CHR 0x20, CHR 0x0A, CHR 0x09]
   \<and> accuracy (evaluate_response ''How hot is it?'' [CHR 0x20, CHR 0x0A, CHR 0x09] ''weather'') = 1
   \<and> relevance (evaluate_response ''How hot is it?'' [CHR 0x20, CHR 0x0A, CHR 0x09] ''weather'') = 3
   \<and> completeness (evaluate_response ''How hot is it?'' [CHR 0x20, CHR 0x0A, CHR 0x09] ''weather'') = 2"
proof -
  have h1: "[CHR 0x20, CHR 0x0A, CHR 0x09] \<noteq> []" by simp
  have h2: "\<forall>c \<in> set [CHR 0x20, CHR 0x0A, CHR 0x09]. py_isspace c"
    by (simp add: py_isspace_def)
  from evaluate_response_whitespace_only [OF h1 h2, of "''How hot is it?''" "''weather''"] h2
  show ?thesis unfolding list_all_iff by simp
qed

section \<open>Properties of the weather branch\<close>

lemma first_some_map_Some:
  "first_some (map f xs) = Some y \<Longrightarrow> \<exists>x \<in> set xs. f x = Some y"
proof (induction xs)
  case Nil
  then show ?case by simp
next
  case (Cons x xs)
  then show ?case by (cases "f x") auto
qed

lemma match_here_groups:
  "match_here items s = Some groups \<Longrightarrow>
   length groups = length (filter (\<lambda>item. item = WordGroup) items) \<and> [] \<notin> set groups"
proof (induction items arbitrary: s groups)
  case Nil
  then show ?case by simp
next
  case (Cons item items)
  show ?case
  proof (cases item)
    case (Lit l)
    with Cons.prems have "match_here items (drop (length l) s) = Some groups"
      by (simp split: if_splits)
    from Cons.IH [OF this] Lit show ?thesis by simp
  next
    case WordGroup
    let ?f = "\<lambda>k. case match_here items (drop k s) of
                   None \<Rightarrow> None
                 | Some groups \<Rightarrow> Some (take k s # groups)"
    from Cons.prems WordGroup
    have "first_some (map ?f (rev [1 ..< Suc (length (takeWhile is_word s))])) = Some groups"
      by simp
    from first_some_map_Some [OF this]
    obtain k where k: "1 \<le> k" "k \<le> length (takeWhile is_word s)" and fk: "?f k = Some groups"
      by auto
    from fk obtain rest where rest: "match_here items (drop k s) = Some rest"
      and groups: "groups = take k s # rest"
      by (auto split: option.splits)
    have "length (takeWhile is_word s) \<le> length s" by (rule length_takeWhile_le)
    with k have "take k s \<noteq> []" by auto
    with Cons.IH [OF rest] groups WordGroup show ?thesis by auto
  qed
qed

lemma re_search_one_group:
  assumes "re_search pattern s = Some groups" and "pattern \<in> set patterns"
  shows "\<exists>group1. groups = [group1] \<and> group1 \<noteq> []"
proof -
  from assms(1) obtain i where "match_here pattern (drop i s) = Some groups"
    unfolding re_search_def by (blast dest: first_some_map_Some)
  from match_here_groups [OF this]
  have "length groups = length (filter (\<lambda>item. item = WordGroup) pattern)" "[] \<notin> set groups"
    by simp_all
  moreover from assms(2) have "length (filter (\<lambda>item. item = WordGroup) pattern) = 1"
    by (auto simp: patterns_def)
  ultimately show ?thesis by (cases groups) auto
qed

lemma search_patterns_first_some:
  assumes "set ps \<subseteq> set patterns"
  shows "search_patterns ps s =
     (case first_some (map (\<lambda>pattern. re_search pattern s) ps) of
        Some groups \<Rightarrow> Inr (py_title (hd groups))
      | None \<Rightarrow> Inr [])"
  using assms
proof (induction ps)
  case Nil
  then show ?case by simp
next
  case (Cons p ps)
  show ?case
  proof (cases "re_search p s")
    case None
    with Cons show ?thesis by simp
  next
    case (Some groups)
    with Cons.prems re_search_one_group [of p s groups]
    obtain group1 where "groups = [group1]" by auto
    with Some show ?thesis by simp
  qed
qed

lemma py_title_not_empty: "s \<noteq> [] \<Longrightarrow> py_title s \<noteq> []"
  by (cases s) (auto simp: py_title_def title_char_def)

lemma first_some_Some_in:
  "first_some xs = Some y \<Longrightarrow> Some y \<in> set xs"
  by (induction xs rule: first_some.induct) auto

lemma indian_cities_in_cities: "set indian_cities_list \<subseteq> set cities"
  by (simp add: indian_cities_list_def cities_def)

lemma no_city_no_indian_city:
  assumes "find (\<lambda>city. str_in city q) cities = None"
  shows "\<not> list_ex (\<lambda>indian_city. str_in indian_city q) indian_cities_list"
  using assms indian_cities_in_cities by (auto simp: find_None_iff list_ex_iff)

lemma extract_city_from_query_eq:
  "extract_city_from_query query =
     Inr (case find (\<lambda>city. str_in city (py_lower query)) cities of
        Some city \<Rightarrow> py_title city
      | None \<Rightarrow>
          (case first_some (map (\<lambda>pattern. re_search pattern (py_lower query)) patterns) of
             Some groups \<Rightarrow> py_title (hd groups)
           | None \<Rightarrow> []))"
  by (simp add: extract_city_from_query_def Let_def search_patterns_first_some
      split: option.splits)

lemma store_weather_eq:
  "(case store_weather state fetched of
      Inr state' \<Rightarrow> state'
    | Inl e \<Rightarrow> state\<lparr>weather_data := [(''error'', PStr (exn_str e))]\<rparr>)
   = state\<lparr>weather_data := (case fetched of Inr data \<Rightarrow> data
                                | Inl e \<Rightarrow> [(''error'', PStr (exn_str e))])\<rparr>"
  by (simp add: store_weather_def split: sum.splits)

text \<open>
  C7. For every state, and so for every query classified as a weather query,
  \<open>_get_weather\<close> fetches for the city the specification describes. The gazetteer
  holds every Indian city of the weather service, so a query with no city of the
  gazetteer has no Indian city either (\<open>no_city_no_indian_city\<close>), and the default is
  \<open>London\<close>.
\<close>

theorem get_weather_fetches_for_specified_city:
  "get_weather services state =
     state\<lparr>weather_data :=
       weather_fetch services (user_query state) (city_for_weather_fetch (user_query state))\<rparr>"
proof (cases "find (\<lambda>city. str_in city (py_lower (user_query state))) cities")
  case (Some city)
  then have "city \<in> set cities" by (auto simp: find_Some_iff)
  then have "city \<noteq> []" by (auto simp: cities_def)
  then have "py_title city \<noteq> []" by (rule py_title_not_empty)
  with Some show ?thesis
    by (simp add: get_weather_def get_weather_try_def extract_city_from_query_eq Let_def
        city_for_weather_fetch_def weather_fetch_def store_weather_eq)
next
  case None
  note no_city = None
  have london: "\<not> list_ex (\<lambda>indian_city. str_in indian_city (py_lower (user_query state)))
      indian_cities_list"
    using None by (rule no_city_no_indian_city)
  show ?thesis
  proof (cases "first_some (map (\<lambda>pattern. re_search pattern (py_lower (user_query state))) patterns)")
    case None
    with no_city london show ?thesis
      by (simp add: get_weather_def get_weather_try_def extract_city_from_query_eq Let_def
          city_for_weather_fetch_def weather_fetch_def store_weather_eq)
  next
    case (Some groups)
    from first_some_Some_in [OF Some]
    obtain pattern where "pattern \<in> set patterns"
      and "re_search pattern (py_lower (user_query state)) = Some groups"
      by auto
    from re_search_one_group [OF this(2,1)]
    have "hd groups \<noteq> []" by auto
    then have "py_title (hd groups) \<noteq> []" by (rule py_title_not_empty)
    with Some no_city show ?thesis
      by (simp add: get_weather_def get_weather_try_def extract_city_from_query_eq Let_def
          city_for_weather_fetch_def weather_fetch_def store_weather_eq)
  qed
qed

theorem get_weather_fetches_for_specified_city_witness:
  "weather_data (get_weather echo_services (classify_query (initial_state ''weather in oslo'')))
     = [(''city'', PStr ''Oslo'')]
   \<and> city_for_weather_fetch ''weather in oslo'' = ''Oslo''
   \<and> weather_data (get_weather echo_services (classify_query (initial_state ''Is it HOT in New York?'')))
     = [(''city'', PStr ''New York'')]
   \<and> weather_data (get_weather echo_services (classify_query (initial_state ''will it rain'')))
     = [(''city'', PStr ''London'')]"
proof -
  have oslo: "city_for_weather_fetch ''weather in oslo'' = ''Oslo''" by code_simp
  have new_york: "city_for_weather_fetch ''Is it HOT in New York?'' = ''New York''" by code_simp
  have london: "city_for_weather_fetch ''will it rain'' = ''London''" by code_simp
  have q: "user_query (classify_query (initial_state query)) = query" for query
    by (simp add: classify_query_def initial_state_def Let_def)
  have f: "weather_fetch echo_services ''weather in oslo'' ''Oslo'' = [(''city'', PStr ''Oslo'')]"
    "weather_fetch echo_services ''Is it HOT in New York?'' ''New York''
       = [(''city'', PStr ''New York'')]"
    "weather_fetch echo_services ''will it rain'' ''London'' = [(''city'', PStr ''London'')]"
    by code_simp+
  show ?thesis
    using get_weather_fetches_for_specified_city
        [of echo_services "classify_query (initial_state ''weather in oslo'')"]
      get_weather_fetches_for_specified_city
        [of echo_services "classify_query (initial_state ''Is it HOT in New York?'')"]
      get_weather_fetches_for_specified_city
        [of echo_services "classify_query (initial_state ''will it rain'')"]
    by (simp add: q oslo new_york london f)
qed

section \<open>Properties of the query API\<close>

lemma classify_query_type:
  "query_type (classify_query state) = ''weather'' \<or> query_type (classify_query state) = ''rag''"
  by (simp add: classify_query_def Let_def)

text \<open>A failed weather fetch gives the apology with the reason.\<close>

lemma generate_response_weather_error:
  assumes "query_type state = ''weather''"
    and "map_of (weather_data state) ''error'' = Some message"
  shows "response (generate_response services state)
     = ''Sorry, I couldn't get weather information: '' @ py_str message"
  using assms by (simp add: generate_response_def generate_response_try_def)

text \<open>
  C5. For every query and every graph, \<open>process_query\<close> returns a result and raises
  nothing. When the run of the graph raises, the result has the error with the text of
  the exception, the query and the apology. The graph of the pipeline, over any
  services, returns: every failure of a service is caught in its node and carried on
  in the state, so \<open>process_query\<close> returns the dictionary with the six entries of the
  final state.
\<close>

theorem process_query_never_raises:
  fixes query :: string
  shows "(\<exists>returned. process_query graph query = Inr returned)
    \<and> (\<forall>e. graph (initial_state query) = Inl e \<longrightarrow>
          process_query graph query =
            Inr (QueryFailure (''Pipeline error: '' @ exn_str e) query
                   ''Sorry, I encountered an error processing your request.''))
    \<and> (\<exists>final. graph_invoke services (initial_state query) = Inr final
          \<and> process_query (graph_invoke services) query =
              Inr (QueryResult (user_query final) (query_type final) (response final)
                     (evaluation final) (weather_data final) (retrieved_docs final)))"
proof -
  have "\<exists>final. graph_invoke services (initial_state query) = Inr final"
    using classify_query_type [of "initial_state query"]
    by (auto simp: graph_invoke_def route_query_def Let_def)
  then show ?thesis
    by (auto simp: process_query_def split: sum.splits)
qed

theorem process_query_never_raises_witness:
  "process_query (\<lambda>state. Inl (Exn ''graph failed'')) ''Is it hot?''
     = Inr (QueryFailure ''Pipeline error: graph failed'' ''Is it hot?''
              ''Sorry, I encountered an error processing your request.'')"
proof -
  have raised: "(\<lambda>state. Inl (Exn ''graph failed'')) (initial_state ''Is it hot?'')
      = (Inl (Exn ''graph failed'') :: exn + agent_state)"
    by simp
  from process_query_never_raises
      [of "\<lambda>state. Inl (Exn ''graph failed'')" "''Is it hot?''" echo_services] raised
  have "process_query (\<lambda>state. Inl (Exn ''graph failed'')) ''Is it hot?''
     = Inr (QueryFailure (''Pipeline error: '' @ exn_str (Exn ''graph failed'')) ''Is it hot?''
              ''Sorry, I encountered an error processing your request.'')"
    by blast
  then show ?thesis by simp
qed

section \<open>Properties of the vector store\<close>

lemma contents_length: "contents docs = Inr texts \<Longrightarrow> length texts = length docs"
  by (induction docs arbitrary: texts) (auto split: option.splits sum.splits)

lemma make_points_ids:
  "make_points services pairs points world = (Inr points', world') \<Longrightarrow>
   map point_id points' =
     map point_id points @ map (uuid4 services) [uuids_drawn world ..< uuids_drawn world + length pairs]
   \<and> map (\<lambda>p. map_of (payload p) ''content'') points' =
       map (\<lambda>p. map_of (payload p) ''content'') points @ map (\<lambda>(doc, v). map_of doc ''content'') pairs
   \<and> uuids_drawn world' = uuids_drawn world + length pairs"
proof (induction services pairs points world arbitrary: points' world' rule: make_points.induct)
  case (1 services points world)
  then show ?case by simp
next
  case (2 services doc embedding pairs points world)
  from "2.prems" obtain c where c: "map_of doc ''content'' = Some c"
    by (cases "map_of doc ''content''") (auto simp: Let_def)
  have range: "[u ..< Suc (u + n)] = u # [Suc u ..< Suc (u + n)]" for u n :: nat
    by (rule upt_conv_Cons) simp
  from "2.prems" c "2.IH" [OF refl refl c, of points' world']
  show ?case
    by (simp add: Let_def range del: upt_Suc)
qed

lemma make_points_calls:
  "make_points services pairs points world = (result, world') \<Longrightarrow>
   embed_calls world' = embed_calls world \<and> upsert_calls world' = upsert_calls world"
proof (induction services pairs points world arbitrary: result world' rule: make_points.induct)
  case (1 services points world)
  then show ?case by simp
next
  case (2 services doc embedding pairs points world)
  show ?case
  proof (cases "map_of doc ''content''")
    case None
    with "2.prems" show ?thesis by (auto simp: Let_def)
  next
    case (Some c)
    from "2.prems" Some "2.IH" [OF refl refl Some, of result world']
    show ?thesis by (simp add: Let_def)
  qed
qed

text \<open>
  C10. When \<open>add_documents\<close> returns, and the embedding provider gives one vector for
  each text, the list of identifiers is as long as the list of documents: the
  identifiers are the ones drawn, in the order drawn, and the points sent to the store
  carry them, in this order, with the contents of the documents in the order of the
  input. For the empty list the result is the empty list, and no call is made.
\<close>

theorem add_documents_one_id_per_document:
  assumes run: "add_documents services documents world = (Inr ids, world')"
    and provider: "\<And>texts embeddings. embed_documents services texts = Inr embeddings \<Longrightarrow>
        length embeddings = length texts"
  shows "length ids = length documents
    \<and> ids = map (uuid4 services) [uuids_drawn world ..< uuids_drawn world + length documents]
    \<and> (documents \<noteq> [] \<longrightarrow>
         (\<exists>points. upsert_calls world' = upsert_calls world @ [points]
            \<and> map point_id points = ids
            \<and> map (\<lambda>p. map_of (payload p) ''content'') points
                = map (\<lambda>doc. map_of doc ''content'') documents))
    \<and> add_documents services [] world = (Inr [], world)"
proof -
  have empty: "add_documents services [] world = (Inr [], world)"
    by (simp add: add_documents_def)
  have "length ids = length documents
    \<and> ids = map (uuid4 services) [uuids_drawn world ..< uuids_drawn world + length documents]
    \<and> (documents \<noteq> [] \<longrightarrow>
         (\<exists>points. upsert_calls world' = upsert_calls world @ [points]
            \<and> map point_id points = ids
            \<and> map (\<lambda>p. map_of (payload p) ''content'') points
                = map (\<lambda>doc. map_of doc ''content'') documents))"
  proof (cases "documents = []")
    case True
    with run show ?thesis by (simp add: add_documents_def)
  next
    case False
    with run have tried: "add_documents_try services documents world = (Inr ids, world')"
      by (auto simp: add_documents_def split: prod.splits sum.splits)
    then obtain texts embeddings points w where
      texts: "contents documents = Inr texts"
      and emb: "embed_documents services texts = Inr embeddings"
      and pts: "make_points services (zip documents embeddings) []
          (world\<lparr>embed_calls := embed_calls world @ [texts]\<rparr>) = (Inr points, w)"
      and ids: "ids = map point_id points"
      and final: "world' = w\<lparr>upsert_calls := upsert_calls w @ [points]\<rparr>"
      by (auto simp: add_documents_try_def Let_def split: prod.splits sum.splits)
    from provider [OF emb] contents_length [OF texts]
    have len: "length embeddings = length documents" by simp
    then have fst_zip: "map (\<lambda>(doc, v). map_of doc ''content'') (zip documents embeddings)
        = map (\<lambda>doc. map_of doc ''content'') documents"
      by (induction documents embeddings rule: list_induct2') auto
    from make_points_calls [OF pts] final
    have calls: "upsert_calls world' = upsert_calls world @ [points]" by simp
    from make_points_ids [OF pts] ids len fst_zip calls show ?thesis by auto
  qed
  with empty show ?thesis by blast
qed

theorem add_documents_one_id_per_document_witness:
  "add_documents test_store
     [[(''content'', PStr ''ab'')], [(''content'', PStr ''cde''), (''source'', PStr ''pdf'')]]
     \<lparr>embed_calls = [], upsert_calls = [], uuids_drawn = 0\<rparr>
   = (Inr [''u'', ''uu''],
      \<lparr>embed_calls = [[PStr ''ab'', PStr ''cde'']],
       upsert_calls =
         [[\<lparr>point_id = ''u'', point_vector = [2],
            payload = [(''content'', PStr ''ab''), (''metadata'', PObj ''{}''),
                       (''source'', PStr ''unknown'')]\<rparr>,
           \<lparr>point_id = ''uu'', point_vector = [3],
            payload = [(''content'', PStr ''cde''), (''metadata'', PObj ''{}''),
                       (''source'', PStr ''pdf'')]\<rparr>]],
       uuids_drawn = 2\<rparr>)
   \<and> length [''u'', ''uu'']
       = length [[(''content'', PStr ''ab'')],
                 [(''content'', PStr ''cde''), (''source'', PStr ''pdf'')]]
   \<and> add_documents test_store [] \<lparr>embed_calls = [], upsert_calls = [], uuids_drawn = 0\<rparr>
       = (Inr [], \<lparr>embed_calls = [], upsert_calls = [], uuids_drawn = 0\<rparr>)"
proof -
  have run: "add_documents test_store
     [[(''content'', PStr ''ab'')], [(''content'', PStr ''cde''), (''source'', PStr ''pdf'')]]
     \<lparr>embed_calls = [], upsert_calls = [], uuids_drawn = 0\<rparr>
   = (Inr [''u'', ''uu''],
      \<lparr>embed_calls = [[PStr ''ab'', PStr ''cde'']],
       upsert_calls =
         [[\<lparr>point_id = ''u'', point_vector = [2],
            payload = [(''content'', PStr ''ab''), (''metadata'', PObj ''{}''),
                       (''source'', PStr ''unknown'')]\<rparr>,
           \<lparr>point_id = ''uu'', point_vector = [3],
            payload = [(''content'', PStr ''cde''), (''metadata'', PObj ''{}''),
                       (''source'', PStr ''pdf'')]\<rparr>]],
       uuids_drawn = 2\<rparr>)"
    by code_simp
  have provider: "embed_documents test_store texts = Inr embeddings \<Longrightarrow>
      length embeddings = length texts" for texts embeddings
    by (auto simp: test_store_def)
  from add_documents_one_id_per_document [OF run provider] run
  show ?thesis by simp
qed

end
